theory Spec2Isabelle
  imports Main
begin

section \<open>The host object model\<close>

text \<open>
  The program is \<^verbatim>\<open>src/node_events.cc\<close>: \<^verbatim>\<open>EventEmitter::Emit\<close> and the
  \<^verbatim>\<open>EventSource\<close> class. It runs on top of the V8 handle API. The part of V8 it uses is
  modelled as follows.

  \<^item> A JavaScript value is \<open>Undefined\<close>, a number, or a reference to a heap object. The
    reference carries the kind of the object (plain object, array, function), which a
    JavaScript object never changes: \<^verbatim>\<open>IsFunction\<close> followed by the cast to
    \<^verbatim>\<open>Function\<close> is the pattern \<open>Fun f\<close>, \<^verbatim>\<open>IsArray\<close> and its cast the pattern \<open>Arr a\<close>.
  \<^item> A heap object has a property table and, for arrays, the element sequence.
    \<^verbatim>\<open>Get\<close> reads the object's own table; prototype chains and accessors are not modelled.
  \<^item> \<^verbatim>\<open>Function::Call\<close> is the parameter \<open>env\<close>: it maps the function object, the
    receiver and the arguments to a state transformer with a completion. The callee gets
    the whole state, so it may mutate the heap and re-enter the native functions below.
\<close>

type_synonym oid = nat
type_synonym sid = nat

datatype Value = Undefined | Num int | Obj oid | Arr oid | Fun oid

record js_object =
  props :: "string \<Rightarrow> Value"
  elems :: "Value list"

record StackFrame =
  script_name :: string
  function_name :: string
  column :: int
  line_number :: int

text \<open>The fields of the C++ class \<^verbatim>\<open>EventSource\<close> (with those of its base \<^verbatim>\<open>ObjectWrap\<close>):
  \<^verbatim>\<open>handle_\<close>, \<^verbatim>\<open>refs_\<close>, \<^verbatim>\<open>trace_\<close> and \<^verbatim>\<open>parent_source_\<close>, without the final
  underscore, which an Isabelle name cannot end with. An empty \<^verbatim>\<open>Persistent\<close> handle
  is \<open>None\<close>. \<open>wrapper_of\<close> in the state below is \<^verbatim>\<open>ObjectWrap::Unwrap\<close>: the source that
  wraps an object.\<close>

record EventSource =
  handle :: oid
  refs :: int
  trace :: "StackFrame list option"
  parent_source :: "oid option"

text \<open>What is written to \<^verbatim>\<open>stderr\<close>, one item per \<^verbatim>\<open>fprintf\<close> or report.\<close>

datatype out =
    Separator
  | At string string int int
  | Message string
  | Reported Value
  | Fatal Value

text \<open>The ways the process stops inside a native function: \<^verbatim>\<open>exit(n)\<close>, a failed
  \<^verbatim>\<open>assert\<close>, and the dereference of an empty handle.\<close>

datatype halt = Exited int | Aborted | Crashed

datatype completion = Normal Value | Threw Value | Halted halt

record world =
  heap :: "oid \<Rightarrow> js_object"
  global :: oid
  js_stack :: "StackFrame list"
  srcs :: "sid \<Rightarrow> EventSource"
  wrapper_of :: "oid \<Rightarrow> sid"
  current_source :: "sid option"
  tick_cb :: "oid option"
  process :: "oid option"
  stderr :: "out list"

type_synonym host = "oid \<Rightarrow> oid \<Rightarrow> Value list \<Rightarrow> world \<Rightarrow> completion \<times> world"

text \<open>A call made by a native function: the function object, the receiver and the
  arguments. The native functions that call into JavaScript return, next to their result
  and the new state, the list of the calls they made themselves, in order.\<close>

type_synonym call = "oid \<times> oid \<times> Value list"

definition Get :: "world \<Rightarrow> oid \<Rightarrow> string \<Rightarrow> Value" where
  "Get w obj name = props (heap w obj) name"

fun IsObject :: "Value \<Rightarrow> bool" where
  "IsObject (Obj _) = True"
| "IsObject (Arr _) = True"
| "IsObject (Fun _) = True"
| "IsObject _ = False"

text \<open>\<^verbatim>\<open>ToObject\<close> of an object is the object; of \<open>undefined\<close> it is the empty handle.
  A number would be boxed; the one place that could box a number treats the case
  separately.\<close>

fun ToObject :: "Value \<Rightarrow> oid option" where
  "ToObject (Obj a) = Some a"
| "ToObject (Arr a) = Some a"
| "ToObject (Fun a) = Some a"
| "ToObject _ = None"

text \<open>Modelled from the spec: \<^verbatim>\<open>FatalException\<close> and \<^verbatim>\<open>ReportException\<close> are defined in
  \<^verbatim>\<open>node.cc\<close>, which is not part of the sources at hand. The spec says of both that they
  report the error on the diagnostic stream.\<close>

definition FatalException :: "Value \<Rightarrow> world \<Rightarrow> world" where
  "FatalException e w = w\<lparr>stderr := stderr w @ [Fatal e]\<rparr>"

definition ReportException :: "Value \<Rightarrow> world \<Rightarrow> world" where
  "ReportException e w = w\<lparr>stderr := stderr w @ [Reported e]\<rparr>"

section \<open>EventEmitter::Emit\<close>

text \<open>The loop over the clone, lines 53 to 64. \<open>listeners\<close> is the element sequence of
  the clone: \<^verbatim>\<open>Clone()\<close> makes a fresh array that no JavaScript code holds a reference to,
  so it is a local value of the loop and not a heap cell. \<open>i\<close> is the \<^verbatim>\<open>uint32_t\<close>
  index; it stays below the array length.\<close>

function Emit_loop ::
  "host \<Rightarrow> oid \<Rightarrow> Value list \<Rightarrow> Value list \<Rightarrow> nat \<Rightarrow> world \<Rightarrow> (halt + bool) \<times> world \<times> call list"
where
  "Emit_loop env this argv listeners i w =
    (if i < length listeners then
       (case listeners ! i of
          Fun listener \<Rightarrow>
            (case env listener this argv w of
               (Halted h, w') \<Rightarrow> (Inl h, w', [(listener, this, argv)])
             | (Threw e, w') \<Rightarrow> (Inr False, FatalException e w', [(listener, this, argv)])
             | (Normal v, w') \<Rightarrow>
                 (case Emit_loop env this argv listeners (i + 1) w' of
                    (r, w'', cs) \<Rightarrow> (r, w'', (listener, this, argv) # cs)))
        | _ \<Rightarrow> Emit_loop env this argv listeners (i + 1) w)
     else (Inr True, w, []))"
  by pat_completeness auto
termination
  by (relation "measure (\<lambda>(env, this, argv, listeners, i, w). length listeners - i)") auto

declare Emit_loop.simps [simp del]

definition Emit ::
  "host \<Rightarrow> oid \<Rightarrow> string \<Rightarrow> Value list \<Rightarrow> world \<Rightarrow> (halt + bool) \<times> world \<times> call list"
where
  "Emit env this event argv w =
    (let events_v = Get w this ''_events'' in
     if \<not> IsObject events_v then (Inr False, w, [])
     else
         (let events = the (ToObject events_v);
              listeners_v = Get w events event in
          case listeners_v of
            Fun listener \<Rightarrow>
              (case env listener this argv w of
                 (Halted h, w') \<Rightarrow> (Inl h, w', [(listener, this, argv)])
               | (Threw e, w') \<Rightarrow> (Inr False, FatalException e w', [(listener, this, argv)])
               | (Normal v, w') \<Rightarrow> (Inr True, w', [(listener, this, argv)]))
          | Arr a \<Rightarrow> Emit_loop env this argv (elems (heap w a)) 0 w
          | _ \<Rightarrow> (Inr False, w, [])))"

section \<open>EventSource\<close>

text \<open>\<^verbatim>\<open>kFrameLimit\<close> and \<^verbatim>\<open>kAncestorStackLimit\<close> are constants of \<^verbatim>\<open>node_events.h\<close>,
  which is not at hand; they are the parameters \<open>kFrameLimit\<close> and
  \<open>kAncestorStackLimit\<close> of the functions that use them.\<close>

definition frame_line :: "StackFrame \<Rightarrow> out" where
  "frame_line frame = At (function_name frame) (script_name frame) (line_number frame) (column frame)"

function PrintStack :: "int \<Rightarrow> world \<Rightarrow> sid \<Rightarrow> int \<Rightarrow> out list" where
  "PrintStack kAncestorStackLimit w this count =
    (case trace (srcs w this) of
       None \<Rightarrow> []
     | Some frames \<Rightarrow>
         Separator # map frame_line frames @
         (case parent_source (srcs w this) of
            Some p \<Rightarrow>
              (if count < kAncestorStackLimit
               then PrintStack kAncestorStackLimit w (wrapper_of w p) (count + 1)
               else [])
          | None \<Rightarrow> []))"
  by pat_completeness auto
termination
  by (relation "measure (\<lambda>(k, w, this, count). nat (k - count))") auto

declare PrintStack.simps [simp del]

text \<open>\<^verbatim>\<open>_MakeCallback\<close> (an Isabelle name cannot start with an underscore).\<close>

definition u_MakeCallback ::
  "int \<Rightarrow> host \<Rightarrow> sid \<Rightarrow> oid \<Rightarrow> oid \<Rightarrow> Value list \<Rightarrow> world
     \<Rightarrow> (halt + Value option) \<times> world \<times> call list"
where
  "u_MakeCallback kAncestorStackLimit env this cb target argv w =
    (if current_source w \<noteq> None then (Inl Aborted, w, [])
     else
       (let w1 = w\<lparr>current_source := Some this\<rparr> in
        case env cb target argv w1 of
          (Halted h, w2) \<Rightarrow> (Inl h, w2, [(cb, target, argv)])
        | (Threw e, w2) \<Rightarrow>
            (let w3 = w2\<lparr>current_source := None\<rparr>;
                 w4 = ReportException e w3;
                 w5 = w4\<lparr>stderr := stderr w4 @ PrintStack kAncestorStackLimit w4 this 0\<rparr>
             in (Inl (Exited 1), w5, [(cb, target, argv)]))
        | (Normal ret, w2) \<Rightarrow>
            (Inr (Some ret), w2\<lparr>current_source := None\<rparr>, [(cb, target, argv)])))"

definition MakeCallback ::
  "int \<Rightarrow> host \<Rightarrow> sid \<Rightarrow> Value list \<Rightarrow> world \<Rightarrow> (halt + Value option) \<times> world \<times> call list"
where
  "MakeCallback kAncestorStackLimit env this argv w =
    (let callback_v = Get w (handle (srcs w this)) ''callback'' in
     case callback_v of
       Fun callback \<Rightarrow>
         (case u_MakeCallback kAncestorStackLimit env this callback (handle (srcs w this)) argv w of
            (Inl h, w1, cs) \<Rightarrow> (Inl h, w1, cs)
          | (Inr None, w1, cs) \<Rightarrow> (Inr None, w1, cs)
          | (Inr (Some ret), w1, cs) \<Rightarrow>
              (if tick_cb w1 = None \<or> process w1 = None then
                 (case Get w1 (global w1) ''process'' of
                    Undefined \<Rightarrow> (Inl Crashed, w1, cs)
                  | Num n \<Rightarrow>
                      (Inl Aborted,
                       w1\<lparr>stderr := stderr w1 @ [Message ''process._tickCallback undefined. Bad.'']\<rparr>,
                       cs)
                  | process_v \<Rightarrow>
                      (let w2 = w1\<lparr>process := ToObject process_v\<rparr> in
                       case Get w2 (the (process w2)) ''_tickCallback'' of
                         Fun t \<Rightarrow>
                           (let w3 = w2\<lparr>tick_cb := Some t\<rparr> in
                            case u_MakeCallback kAncestorStackLimit env this
                                   (the (tick_cb w3)) (the (process w3)) [] w3 of
                              (r, w4, cs') \<Rightarrow> (r, w4, cs @ cs'))
                       | _ \<Rightarrow>
                           (Inl Aborted,
                            w2\<lparr>stderr := stderr w2 @ [Message ''process._tickCallback undefined. Bad.'']\<rparr>,
                            cs)))
               else
                 (case u_MakeCallback kAncestorStackLimit env this
                         (the (tick_cb w1)) (the (process w1)) [] w1 of
                    (r, w4, cs') \<Rightarrow> (r, w4, cs @ cs'))))
     | _ \<Rightarrow> (Inr None, w, []))"

text \<open>Modelled from the spec: \<^verbatim>\<open>Ref\<close> and \<^verbatim>\<open>Unref\<close> belong to the base class
  \<^verbatim>\<open>ObjectWrap\<close> (\<^verbatim>\<open>node_object_wrap.h\<close>), which is not at hand. The spec: becoming active
  ``increases its own reference count'', becoming inactive ``decreases reference count''.\<close>

definition Ref :: "sid \<Rightarrow> world \<Rightarrow> world" where
  "Ref this w = w\<lparr>srcs := (srcs w)(this := (srcs w this)\<lparr>refs := refs (srcs w this) + 1\<rparr>)\<rparr>"

definition Unref :: "sid \<Rightarrow> world \<Rightarrow> world" where
  "Unref this w = w\<lparr>srcs := (srcs w)(this := (srcs w this)\<lparr>refs := refs (srcs w this) - 1\<rparr>)\<rparr>"

definition ClearStack :: "sid \<Rightarrow> world \<Rightarrow> world" where
  "ClearStack this w =
    (if trace (srcs w this) \<noteq> None
     then w\<lparr>srcs := (srcs w)(this := (srcs w this)\<lparr>trace := None\<rparr>)\<rparr>
     else w)"


definition DeleteParent :: "sid \<Rightarrow> world \<Rightarrow> world" where
  "DeleteParent this w =
    (if parent_source (srcs w this) \<noteq> None
     then w\<lparr>srcs := (srcs w)(this := (srcs w this)\<lparr>parent_source := None\<rparr>)\<rparr>
     else w)"


definition Inactive :: "sid \<Rightarrow> world \<Rightarrow> world" where
  "Inactive this w = Unref this (ClearStack this (DeleteParent this w))"

section \<open>Auxiliary notions for the statements\<close>

text \<open>The callable elements of a sequence, in order.\<close>

fun callables :: "Value list \<Rightarrow> oid list" where
  "callables [] = []"
| "callables (Fun f # vs) = f # callables vs"
| "callables (_ # vs) = callables vs"

text \<open>The loop of \<^verbatim>\<open>Emit\<close> as the spec words it: ``invoke each element that is
  callable, in order'', over the snapshot as a list. It is compared with the index loop
  \<open>Emit_loop\<close> of the source in \<open>Emit_loop_drop\<close>.\<close>

fun run_snapshot ::
  "host \<Rightarrow> oid \<Rightarrow> Value list \<Rightarrow> Value list \<Rightarrow> world \<Rightarrow> (halt + bool) \<times> world \<times> call list"
where
  "run_snapshot env this argv [] w = (Inr True, w, [])"
| "run_snapshot env this argv (Fun listener # rest) w =
    (case env listener this argv w of
       (Halted h, w') \<Rightarrow> (Inl h, w', [(listener, this, argv)])
     | (Threw e, w') \<Rightarrow> (Inr False, FatalException e w', [(listener, this, argv)])
     | (Normal v, w') \<Rightarrow>
         (case run_snapshot env this argv rest w' of
            (r, w'', cs) \<Rightarrow> (r, w'', (listener, this, argv) # cs)))"
| "run_snapshot env this argv (_ # rest) w = run_snapshot env this argv rest w"

text \<open>The lines that \<^verbatim>\<open>PrintStack\<close> writes for one source: the separator and one line per
  frame of its trace; nothing when it has no trace.\<close>

definition section_of :: "world \<Rightarrow> sid \<Rightarrow> out list" where
  "section_of w s =
    (case trace (srcs w s) of None \<Rightarrow> [] | Some frames \<Rightarrow> Separator # map frame_line frames)"

text \<open>A chain of sources, innermost first: each has a recorded trace, and the parent link
  of each is the wrapped object of the next.\<close>

fun linked :: "world \<Rightarrow> sid list \<Rightarrow> bool" where
  "linked w [] = True"
| "linked w [s] = (trace (srcs w s) \<noteq> None)"
| "linked w (s # s' # ss) =
    (trace (srcs w s) \<noteq> None
     \<and> (case parent_source (srcs w s) of None \<Rightarrow> False | Some p \<Rightarrow> wrapper_of w p = s')
     \<and> linked w (s' # ss))"

text \<open>A world for the scenarios of \<^verbatim>\<open>Emit\<close>: the emitter is object 2, its
  \<^verbatim>\<open>_events\<close> table object 3, the listeners of event \<^verbatim>\<open>x\<close> the array 4 with the
  elements \<open>ls\<close>. Array 5 is a log that the listeners of the scenarios append to.\<close>

definition blank :: js_object where
  "blank = \<lparr>props = (\<lambda>_. Undefined), elems = []\<rparr>"

definition emit_world :: "Value list \<Rightarrow> world" where
  "emit_world ls =
    \<lparr>heap = (\<lambda>_. blank)
       (2 := blank\<lparr>props := (\<lambda>_. Undefined)(''_events'' := Obj 3)\<rparr>,
        3 := blank\<lparr>props := (\<lambda>_. Undefined)(''x'' := Arr 4)\<rparr>,
        4 := blank\<lparr>elems := ls\<rparr>),
     global = 0,
     js_stack = [],
     srcs = (\<lambda>_. \<lparr>handle = 0, refs = 0, trace = None, parent_source = None\<rparr>),
     wrapper_of = (\<lambda>_. 0),
     current_source = None,
     tick_cb = None,
     process = None,
     stderr = []\<rparr>"

definition log_call :: "oid \<Rightarrow> world \<Rightarrow> world" where
  "log_call f w = w\<lparr>heap := (heap w)(5 := (heap w 5)\<lparr>elems := elems (heap w 5) @ [Num (int f)]\<rparr>)\<rparr>"

text \<open>Listeners \<open>f = 10\<close>, \<open>g = 11\<close>, \<open>h = 12\<close>: \<open>g\<close> throws 99, the others log
  their call and return.\<close>

definition fgh_host :: host where
  "fgh_host f recv argv w =
    (if f = 11 then (Threw (Num 99), w) else (Normal Undefined, log_call f w))"



text \<open>The worlds and hosts of the scenarios of \<^verbatim>\<open>EventSource\<close>. \<^verbatim>\<open>blank_world\<close> has no
  object with a property, no active source and an empty \<^verbatim>\<open>stderr\<close>.\<close>

definition blank_world :: world where
  "blank_world =
    \<lparr>heap = (\<lambda>_. blank),
     global = 0,
     js_stack = [],
     srcs = (\<lambda>_. \<lparr>handle = 0, refs = 0, trace = None, parent_source = None\<rparr>),
     wrapper_of = (\<lambda>_. 0),
     current_source = None,
     tick_cb = None,
     process = None,
     stderr = []\<rparr>"

definition frame_at :: "int \<Rightarrow> StackFrame" where
  "frame_at n = \<lparr>script_name = ''a.js'', function_name = ''f'', column = 7, line_number = n\<rparr>"

text \<open>Every source \<open>s\<close> has a trace of one frame (at line \<open>s\<close>) and wraps object
  \<open>s + 100\<close>; the parent of source \<open>s\<close> is source \<open>s + 1\<close>, up to source 5, which has none.\<close>

definition chain_world :: world where
  "chain_world = blank_world
    \<lparr>srcs := (\<lambda>s. \<lparr>handle = s + 100, refs = 1, trace = Some [frame_at (int s)],
                   parent_source = (if s < 5 then Some (s + 101) else None)\<rparr>),
     wrapper_of := (\<lambda>obj. obj - 100)\<rparr>"


text \<open>Source 2 is idle: no trace, no parent link, reference count 0.\<close>

definition idle_world :: world where
  "idle_world = blank_world
    \<lparr>srcs := (srcs blank_world)
       (2 := \<lparr>handle = 20, refs = 0, trace = None, parent_source = None\<rparr>)\<rparr>"

text \<open>A callee that appends the current source, as it sees it, to the log array 5.\<close>

definition log_source :: "world \<Rightarrow> world" where
  "log_source w = w\<lparr>heap := (heap w)(5 := (heap w 5)\<lparr>elems := elems (heap w 5) @
      [case current_source w of None \<Rightarrow> Undefined | Some s \<Rightarrow> Num (int s)]\<rparr>)\<rparr>"

text \<open>Source 2 wraps object 20, whose \<^verbatim>\<open>callback\<close> is function 10; source 3 wraps object
  30, whose \<^verbatim>\<open>callback\<close> is function 12. The global object is 6, \<^verbatim>\<open>process\<close> is object 7
  and \<^verbatim>\<open>process._tickCallback\<close> is function 11.\<close>

definition cb_world :: world where
  "cb_world = blank_world
    \<lparr>heap := (heap blank_world)
       (20 := blank\<lparr>props := (\<lambda>_. Undefined)(''callback'' := Fun 10)\<rparr>,
        30 := blank\<lparr>props := (\<lambda>_. Undefined)(''callback'' := Fun 12)\<rparr>,
        6 := blank\<lparr>props := (\<lambda>_. Undefined)(''process'' := Obj 7)\<rparr>,
        7 := blank\<lparr>props := (\<lambda>_. Undefined)(''_tickCallback'' := Fun 11)\<rparr>),
     global := 6,
     srcs := (srcs blank_world)
       (2 := \<lparr>handle = 20, refs = 1, trace = Some [frame_at 3], parent_source = None\<rparr>,
        3 := \<lparr>handle = 30, refs = 1, trace = Some [frame_at 4], parent_source = Some 20\<rparr>),
     wrapper_of := (wrapper_of blank_world)(20 := 2, 30 := 3)\<rparr>"

text \<open>The callback 10 returns 42; every other function (the drain among them) returns
  \<open>undefined\<close>. Each logs the current source.\<close>

definition answer_host :: host where
  "answer_host f recv argv w =
    (if f = 10 then (Normal (Num 42), log_source w) else (Normal Undefined, log_source w))"

definition leaf_host :: host where
  "leaf_host f recv argv w = (Normal Undefined, log_source w)"

definition throwing_host :: host where
  "throwing_host f recv argv w = (Threw (Num 99), log_source w)"

text \<open>The callback 10 of source 2 logs the current source, invokes the callback 12 of source
  3 synchronously (through \<^verbatim>\<open>_MakeCallback\<close> in \<open>nested_host\<close>, through \<^verbatim>\<open>MakeCallback\<close> in
  \<open>nested_public_host\<close>), and logs the current source again when that returns.\<close>

definition nested_host :: host where
  "nested_host f recv argv w =
    (if f = 10 then
       (case u_MakeCallback 10 leaf_host 3 12 30 [] (log_source w) of
          (Inl h, w', cs) \<Rightarrow> (Halted h, w')
        | (Inr r, w', cs) \<Rightarrow> (Normal Undefined, log_source w'))
     else leaf_host f recv argv w)"

definition nested_public_host :: host where
  "nested_public_host f recv argv w =
    (if f = 10 then
       (case MakeCallback 10 leaf_host 3 [] (log_source w) of
          (Inl h, w', cs) \<Rightarrow> (Halted h, w')
        | (Inr r, w', cs) \<Rightarrow> (Normal Undefined, log_source w'))
     else leaf_host f recv argv w)"

text \<open>The state after \<^verbatim>\<open>MakeCallback\<close> on source 2 of \<open>cb_world\<close> with \<open>answer_host\<close>.\<close>

definition drained_world :: world where
  "drained_world =
    (log_source ((log_source (cb_world\<lparr>current_source := Some 2\<rparr>))
       \<lparr>process := Some 7, tick_cb := Some 11, current_source := Some 2\<rparr>))
    \<lparr>current_source := None\<rparr>"

text \<open>\<open>cb_world\<close> without \<^verbatim>\<open>process._tickCallback\<close>, and \<open>cb_world\<close> with the two statics
  already set (to a function 13 and an object 8 that differ from what the heap holds).\<close>

definition no_tick_world :: world where
  "no_tick_world = cb_world\<lparr>heap := (heap cb_world)(7 := blank)\<rparr>"

definition cached_world :: world where
  "cached_world = cb_world\<lparr>tick_cb := Some 13, process := Some 8\<rparr>"

section \<open>The loop of Emit and the snapshot\<close>

lemma Emit_loop_drop:
  "Emit_loop env this argv listeners i w = run_snapshot env this argv (drop i listeners) w"
proof (induction env this argv listeners i w rule: Emit_loop.induct)
  case (1 env this argv listeners i w)
  show ?case
  proof (cases "i < length listeners")
    case False
    then show ?thesis by (subst Emit_loop.simps) simp
  next
    case True
    then have d: "drop i listeners = listeners ! i # drop (i + 1) listeners"
      by (simp add: Cons_nth_drop_Suc)
    show ?thesis
    proof (cases "listeners ! i")
      case (Fun f)
      show ?thesis
      proof (cases "env f this argv w")
        case (Pair c w')
        show ?thesis
        proof (cases c)
          case (Normal v)
          have ih: "Emit_loop env this argv listeners (Suc i) w' =
                    run_snapshot env this argv (drop (Suc i) listeners) w'"
            using "1.IH"(5)[OF True Fun Pair[symmetric] Normal] by simp
          show ?thesis
            by (subst Emit_loop.simps) (simp add: True Fun Pair Normal d ih)
        next
          case (Threw e)
          show ?thesis
            by (subst Emit_loop.simps) (simp add: True Fun Pair Threw d)
        next
          case (Halted h)
          show ?thesis
            by (subst Emit_loop.simps) (simp add: True Fun Pair Halted d)
        qed
      qed
    next
      case Undefined
      then show ?thesis using True d "1.IH" by (subst Emit_loop.simps) simp
    next
      case (Num n)
      then show ?thesis using True d "1.IH" by (subst Emit_loop.simps) simp
    next
      case (Obj n)
      then show ?thesis using True d "1.IH" by (subst Emit_loop.simps) simp
    next
      case (Arr n)
      then show ?thesis using True d "1.IH" by (subst Emit_loop.simps) simp
    qed
  qed
qed



lemma run_snapshot_no_callable:
  "callables ls = [] \<Longrightarrow> run_snapshot env this argv ls w = (Inr True, w, [])"
  by (induction env this argv ls w rule: run_snapshot.induct) simp_all

lemma run_snapshot_append_ok:
  "run_snapshot env this argv pre w = (Inr True, w1, cs) \<Longrightarrow>
   run_snapshot env this argv (pre @ post) w =
     (case run_snapshot env this argv post w1 of (r, w2, cs') \<Rightarrow> (r, w2, cs @ cs'))"
proof (induction env this argv pre w arbitrary: cs rule: run_snapshot.induct)
  case (1 env this argv w)
  then show ?case by (auto split: prod.splits)
next
  case (2 env this argv listener rest w)
  obtain c w' where e: "env listener this argv w = (c, w')" by (cases "env listener this argv w")
  show ?case
  proof (cases c)
    case (Normal v)
    obtain r2 w2 cs2 where rr: "run_snapshot env this argv rest w' = (r2, w2, cs2)"
      by (cases "run_snapshot env this argv rest w'") auto
    from "2.prems" e Normal rr have eqs: "r2 = Inr True" "w2 = w1" "cs = (listener, this, argv) # cs2"
      by auto
    have "run_snapshot env this argv (rest @ post) w' =
      (case run_snapshot env this argv post w1 of (r, w2, cs') \<Rightarrow> (r, w2, cs2 @ cs'))"
      using "2.IH"[OF e[symmetric] Normal] rr eqs by simp
    then show ?thesis using e Normal eqs by (simp split: prod.splits)
  next
    case (Threw x)
    with "2.prems" e show ?thesis by auto
  next
    case (Halted h)
    with "2.prems" e show ?thesis by auto
  qed
qed simp_all



lemma callables_Nil: "(\<forall>f. Fun f \<notin> set ls) \<Longrightarrow> callables ls = []"
  by (induction ls rule: callables.induct) auto

lemma Emit_array:
  assumes "IsObject (Get w this ''_events'')"
      and "Get w (the (ToObject (Get w this ''_events''))) event = Arr a"
    shows "Emit env this event argv w = run_snapshot env this argv (elems (heap w a)) w"
  using assms by (simp add: Emit_def Emit_loop_drop)

lemma emit_world_events [simp]: "Get (emit_world ls) 2 ''_events'' = Obj 3"
  by (simp add: emit_world_def Get_def blank_def)

lemma emit_world_x [simp]: "Get (emit_world ls) 3 ''x'' = Arr 4"
  by (simp add: emit_world_def Get_def blank_def)

lemma emit_world_elems [simp]: "elems (heap (emit_world ls) 4) = ls"
  by (simp add: emit_world_def blank_def)

lemma fgh_10: "fgh_host 10 r a w = (Normal Undefined, log_call 10 w)"
  by (simp add: fgh_host_def)
lemma fgh_11: "fgh_host 11 r a w = (Threw (Num 99), w)"
  by (simp add: fgh_host_def)

lemma fgh_pre: "Emit_loop fgh_host 2 [Num 1, Num 2] [Fun 10] 0 (emit_world [Fun 10, Fun 11, Fun 12])
   = (Inr True, log_call 10 (emit_world [Fun 10, Fun 11, Fun 12]), [(10, 2, [Num 1, Num 2])])"
  by (simp add: Emit_loop_drop fgh_10)




section \<open>Claims about Emit\<close>

text \<open>
  C4. For every \<^verbatim>\<open>Emit\<close> over a snapshot of listeners: when the listeners before \<open>g\<close> in
  the snapshot have run and returned (the loop over them alone ends with \<open>True\<close> in state
  \<open>w1\<close>, having made the calls \<open>cs\<close>) and \<open>g\<close> throws \<open>e\<close>, then \<^verbatim>\<open>Emit\<close> reports
  \<open>e\<close> (\<open>FatalException\<close>), returns false, and the calls it made are \<open>cs\<close> followed by the
  call of \<open>g\<close>: no listener after \<open>g\<close> in the snapshot is invoked.
\<close>

theorem Emit_stops_at_first_throw:
  assumes "IsObject (Get w this ''_events'')"
      and "Get w (the (ToObject (Get w this ''_events''))) event = Arr a"
      and "elems (heap w a) = pre @ Fun g # post"
      and "Emit_loop env this argv pre 0 w = (Inr True, w1, cs)"
      and "env g this argv w1 = (Threw e, w2)"
    shows "Emit env this event argv w = (Inr False, FatalException e w2, cs @ [(g, this, argv)])"
proof -
  have "run_snapshot env this argv pre w = (Inr True, w1, cs)"
    using assms(4) by (simp add: Emit_loop_drop)
  then have "run_snapshot env this argv (pre @ Fun g # post) w =
      (case run_snapshot env this argv (Fun g # post) w1 of (r, w2, cs') \<Rightarrow> (r, w2, cs @ cs'))"
    by (rule run_snapshot_append_ok)
  then show ?thesis
    using Emit_array[OF assms(1,2)] assms(3,5) by simp
qed

text \<open>The scenario of the spec: listeners \<open>f, g, h\<close>, arguments \<open>1, 2\<close>, and \<open>g\<close> throws.
  \<open>f\<close> has logged its call, the error is reported, \<open>h\<close> has not run.\<close>

theorem Emit_stops_at_first_throw_witness:
  "Emit fgh_host 2 ''x'' [Num 1, Num 2] (emit_world [Fun 10, Fun 11, Fun 12])
     = (Inr False,
        FatalException (Num 99) (log_call 10 (emit_world [Fun 10, Fun 11, Fun 12])),
        [(10, 2, [Num 1, Num 2]), (11, 2, [Num 1, Num 2])])
   \<and> elems (heap (FatalException (Num 99) (log_call 10 (emit_world [Fun 10, Fun 11, Fun 12]))) 5) = [Num 10]
   \<and> stderr (FatalException (Num 99) (log_call 10 (emit_world [Fun 10, Fun 11, Fun 12]))) = [Fatal (Num 99)]"
proof -
  let ?w = "emit_world [Fun 10, Fun 11, Fun 12]"
  have 1: "IsObject (Get ?w 2 ''_events'')" by simp
  have 2: "Get ?w (the (ToObject (Get ?w 2 ''_events''))) ''x'' = Arr 4" by simp
  have 3: "elems (heap ?w 4) = [Fun 10] @ Fun 11 # [Fun 12]" by simp
  have 5: "fgh_host 11 2 [Num 1, Num 2] (log_call 10 ?w) = (Threw (Num 99), log_call 10 ?w)"
    by (rule fgh_11)
  have "elems (heap (FatalException (Num 99) (log_call 10 ?w)) 5) = [Num 10]"
    by (simp add: FatalException_def log_call_def emit_world_def blank_def)
  moreover have "stderr (FatalException (Num 99) (log_call 10 ?w)) = [Fatal (Num 99)]"
    by (simp add: FatalException_def log_call_def emit_world_def)
  ultimately show ?thesis
    using Emit_stops_at_first_throw [OF 1 2 3 fgh_pre 5] by simp
qed



text \<open>
  C10. When the value stored for the event name is an array with no callable element
  (the empty array included), \<^verbatim>\<open>Emit\<close> returns true, calls nothing and leaves the state
  as it was: a true result does not mean that a listener ran.
\<close>

theorem Emit_array_without_callable:
  assumes "IsObject (Get w this ''_events'')"
      and "Get w (the (ToObject (Get w this ''_events''))) event = Arr a"
      and "\<forall>f. Fun f \<notin> set (elems (heap w a))"
    shows "Emit env this event argv w = (Inr True, w, [])"
proof -
  have "callables (elems (heap w a)) = []"
    using assms(3) by (rule callables_Nil)
  then show ?thesis
    using Emit_array[OF assms(1,2)] by (simp add: run_snapshot_no_callable)
qed

text \<open>An array of two values that are not callable, and the empty array.\<close>

theorem Emit_array_without_callable_witness:
  "IsObject (Get (emit_world [Num 3, Undefined]) 2 ''_events'')
   \<and> Get (emit_world [Num 3, Undefined]) (the (ToObject (Get (emit_world [Num 3, Undefined]) 2 ''_events''))) ''x'' = Arr 4
   \<and> (\<forall>f. Fun f \<notin> set (elems (heap (emit_world [Num 3, Undefined]) 4)))
   \<and> Emit fgh_host 2 ''x'' [Num 1, Num 2] (emit_world [Num 3, Undefined])
       = (Inr True, emit_world [Num 3, Undefined], [])
   \<and> Emit fgh_host 2 ''x'' [Num 1, Num 2] (emit_world [])
       = (Inr True, emit_world [], [])"
  using Emit_array_without_callable [of "emit_world [Num 3, Undefined]" 2 "''x''" 4 fgh_host "[Num 1, Num 2]"]
        Emit_array_without_callable [of "emit_world []" 2 "''x''" 4 fgh_host "[Num 1, Num 2]"]
  by simp


section \<open>PrintStack\<close>

lemma PrintStack_no_trace:
  "trace (srcs w this) = None \<Longrightarrow> PrintStack K w this count = []"
  by (subst PrintStack.simps) simp

lemma PrintStack_chain:
  "linked w ss \<Longrightarrow> ss \<noteq> [] \<Longrightarrow> count \<le> K \<Longrightarrow> nat (K - count) < length ss \<Longrightarrow>
   PrintStack K w (hd ss) count = concat (map (section_of w) (take (Suc (nat (K - count))) ss))"
proof (induction ss arbitrary: count)
  case Nil
  then show ?case by simp
next
  case (Cons s rest)
  from Cons.prems(1) obtain frames where tr: "trace (srcs w s) = Some frames"
    by (cases rest) auto
  show ?case
  proof (cases "count < K")
    case False
    with Cons.prems(3) have "K - count = 0" by simp
    then show ?thesis
      using tr False by (subst PrintStack.simps) (simp add: section_of_def split: option.splits)
  next
    case True
    with Cons.prems(4) obtain s' ss' where rest: "rest = s' # ss'"
      by (cases rest) auto
    from Cons.prems(1) rest obtain p where
      p: "parent_source (srcs w s) = Some p" "wrapper_of w p = s'" and l: "linked w rest"
      by (auto split: option.splits)
    have n: "nat (K - count) = Suc (nat (K - (count + 1)))"
      using True by simp
    have "PrintStack K w (hd rest) (count + 1) =
          concat (map (section_of w) (take (Suc (nat (K - (count + 1)))) rest))"
      using Cons.IH[OF l, of "count + 1"] True Cons.prems(4) rest by simp
    then have r: "PrintStack K w s' (count + 1) =
          concat (map (section_of w) (take (nat (K - count)) rest))"
      using rest n by simp
    have "PrintStack K w s count = Separator # map frame_line frames @ PrintStack K w s' (count + 1)"
      using tr p True by (subst PrintStack.simps) simp
    moreover have "section_of w s = Separator # map frame_line frames"
      using tr by (simp add: section_of_def)
    ultimately show ?thesis
      using r by simp
  qed
qed

lemma linked_traced: "linked w ss \<Longrightarrow> s \<in> set ss \<Longrightarrow> trace (srcs w s) \<noteq> None"
  by (induction w ss rule: linked.induct) auto

lemma separators_sections:
  "(\<forall>s \<in> set ss. trace (srcs w s) \<noteq> None) \<Longrightarrow>
   length (filter (\<lambda>x. x = Separator) (concat (map (section_of w) ss))) = length ss"
proof (induction ss)
  case Nil
  then show ?case by simp
next
  case (Cons s ss)
  then obtain frames where "trace (srcs w s) = Some frames" by auto
  moreover have "filter (\<lambda>x. x = Separator) (map frame_line frames) = []"
    by (induction frames) (simp_all add: frame_line_def)
  ultimately show ?case using Cons by (simp add: section_of_def)
qed

lemma chain_linked: "linked chain_world [2, 3, 4, 5]"
  by (simp add: chain_world_def blank_world_def)

lemma PrintStack_frame:
  "srcs w' = srcs w \<Longrightarrow> wrapper_of w' = wrapper_of w \<Longrightarrow>
   PrintStack K w' this count = PrintStack K w this count"
proof (induction K w this count rule: PrintStack.induct)
  case (1 K w this count)
  show ?case
  proof (cases "trace (srcs w this)")
    case None
    then show ?thesis using 1(2) by (simp add: PrintStack_no_trace)
  next
    case (Some frames)
    show ?thesis
    proof (cases "parent_source (srcs w this)")
      case None
      then show ?thesis using Some 1(2)
        by (subst (1 2) PrintStack.simps) simp
    next
      case p: (Some p)
      show ?thesis
      proof (cases "count < K")
        case True
        have "PrintStack K w' (wrapper_of w p) (count + 1) = PrintStack K w (wrapper_of w p) (count + 1)"
          using 1(1)[OF Some p True 1(2,3)] .
        then show ?thesis using Some p True 1(2,3)
          by (subst (1 2) PrintStack.simps) simp
      next
        case False
        then show ?thesis using Some p 1(2)
          by (subst (1 2) PrintStack.simps) simp
      qed
    qed
  qed
qed

text \<open>
  C8. \<^verbatim>\<open>PrintStack\<close> writes nothing for a source with no recorded trace. For a chain of
  linked sources that is longer than \<^verbatim>\<open>kAncestorStackLimit\<close> (the source and its
  ancestors, \<open>nat K < length (this # ancestors)\<close>), printing the innermost source's
  stack writes its own section followed by the sections of its first \<open>K\<close> ancestors and
  no more: \<open>K\<close> ancestor sections, \<open>1 + K\<close> separators in all.
\<close>

theorem PrintStack_bounded:
  "(trace (srcs w this) = None \<longrightarrow> PrintStack K w this count = []) \<and>
   (linked w (this # ancestors) \<and> 0 \<le> K \<and> nat K < length (this # ancestors) \<longrightarrow>
      PrintStack K w this 0 =
        section_of w this @ concat (map (section_of w) (take (nat K) ancestors))
      \<and> length (filter (\<lambda>x. x = Separator) (PrintStack K w this 0)) = 1 + nat K)"
proof (intro conjI impI)
  assume "trace (srcs w this) = None"
  then show "PrintStack K w this count = []" by (rule PrintStack_no_trace)
next
  assume a: "linked w (this # ancestors) \<and> 0 \<le> K \<and> nat K < length (this # ancestors)"
  then have "PrintStack K w (hd (this # ancestors)) 0 =
      concat (map (section_of w) (take (Suc (nat (K - 0))) (this # ancestors)))"
    by (intro PrintStack_chain) auto
  then have e: "PrintStack K w this 0 = concat (map (section_of w) (take (Suc (nat K)) (this # ancestors)))"
    by simp
  then show "PrintStack K w this 0 =
      section_of w this @ concat (map (section_of w) (take (nat K) ancestors))"
    by simp
  have "\<forall>s \<in> set (take (Suc (nat K)) (this # ancestors)). trace (srcs w s) \<noteq> None"
    using a linked_traced[of w "this # ancestors"] by (meson in_set_takeD)
  then have "length (filter (\<lambda>x. x = Separator) (PrintStack K w this 0))
      = length (take (Suc (nat K)) (this # ancestors))"
    unfolding e by (rule separators_sections)
  also have "\<dots> = 1 + nat K" using a by simp
  finally show "length (filter (\<lambda>x. x = Separator) (PrintStack K w this 0)) = 1 + nat K" .
qed

text \<open>A chain of four sources 2, 3, 4, 5 with the limit 2: the section of source 2 and of
  its ancestors 3 and 4; source 5 is not printed.\<close>

theorem PrintStack_bounded_witness:
  "trace (srcs blank_world 2) = None \<and> PrintStack 2 blank_world 2 0 = []
   \<and> linked chain_world [2, 3, 4, 5] \<and> (0::int) \<le> 2 \<and> nat 2 < length [2::nat, 3, 4, 5]
   \<and> PrintStack 2 chain_world 2 0 =
       [Separator, At ''f'' ''a.js'' 2 7, Separator, At ''f'' ''a.js'' 3 7, Separator, At ''f'' ''a.js'' 4 7]
   \<and> length (filter (\<lambda>x. x = Separator) (PrintStack 2 chain_world 2 0)) = 3"
  using PrintStack_bounded [of blank_world 2 2 0 "[3, 4, 5]"]
        PrintStack_bounded [of chain_world 2 2 0 "[3, 4, 5]"] chain_linked
  by (simp add: blank_world_def section_of_def chain_world_def frame_line_def frame_at_def)

section \<open>Active and Inactive\<close>

lemma srcs_Ref [simp]:
  "srcs (Ref this w) = (srcs w)(this := (srcs w this)\<lparr>refs := refs (srcs w this) + 1\<rparr>)"
  by (simp add: Ref_def)





text \<open>
  C9 as stated fails. On the idle source 2 (no trace, no parent link, count 0)
  \<^verbatim>\<open>Inactive()\<close> changes the state: it calls \<^verbatim>\<open>Unref()\<close> and the count becomes \<open>- 1\<close>.
\<close>

theorem Inactive_idle_counterexample:
  "trace (srcs idle_world 2) = None
   \<and> parent_source (srcs idle_world 2) = None
   \<and> refs (srcs idle_world 2) = 0
   \<and> refs (srcs (Inactive 2 idle_world) 2) = - 1
   \<and> Inactive 2 idle_world \<noteq> idle_world"
proof -
  have a: "refs (srcs (Inactive 2 idle_world) 2) = - 1"
    by (simp add: Inactive_def Unref_def ClearStack_def DeleteParent_def idle_world_def blank_world_def)
  have b: "refs (srcs idle_world 2) = 0"
    by (simp add: idle_world_def blank_world_def)
  from a b have "Inactive 2 idle_world \<noteq> idle_world" by auto
  with a b show ?thesis by (simp add: idle_world_def blank_world_def)
qed

text \<open>
  C9, amended. On a source with no trace and no parent link \<^verbatim>\<open>Inactive()\<close> leaves both
  fields empty and does nothing but \<^verbatim>\<open>Unref()\<close>: the reference count goes down by one at
  every call.
\<close>

theorem Inactive_idle:
  assumes "trace (srcs w this) = None" and "parent_source (srcs w this) = None"
  shows "Inactive this w = Unref this w
       \<and> trace (srcs (Inactive this w) this) = None
       \<and> parent_source (srcs (Inactive this w) this) = None
       \<and> refs (srcs (Inactive this w) this) = refs (srcs w this) - 1
       \<and> Inactive this (Inactive this w) = Unref this (Unref this w)"
  using assms by (simp add: Inactive_def Unref_def ClearStack_def DeleteParent_def)

theorem Inactive_idle_witness:
  "trace (srcs idle_world 2) = None \<and> parent_source (srcs idle_world 2) = None
   \<and> Inactive 2 idle_world = Unref 2 idle_world
   \<and> trace (srcs (Inactive 2 idle_world) 2) = None
   \<and> parent_source (srcs (Inactive 2 idle_world) 2) = None
   \<and> refs (srcs (Inactive 2 idle_world) 2) = - 1"
proof -
  have 1: "trace (srcs idle_world 2) = None" by (simp add: idle_world_def)
  have 2: "parent_source (srcs idle_world 2) = None" by (simp add: idle_world_def)
  have 3: "refs (srcs idle_world 2) = 0" by (simp add: idle_world_def)
  show ?thesis using Inactive_idle [OF 1 2] 1 2 3 by (simp add: Unref_def)
qed

section \<open>The internal callback primitive\<close>

lemma u_MakeCallback_busy:
  "current_source w \<noteq> None \<Longrightarrow> u_MakeCallback K env this cb target argv w = (Inl Aborted, w, [])"
  by (simp add: u_MakeCallback_def)

lemma u_MakeCallback_normal:
  "current_source w = None \<Longrightarrow>
   env cb target argv (w\<lparr>current_source := Some this\<rparr>) = (Normal v, w') \<Longrightarrow>
   u_MakeCallback K env this cb target argv w
     = (Inr (Some v), w'\<lparr>current_source := None\<rparr>, [(cb, target, argv)])"
  by (simp add: u_MakeCallback_def)

lemma u_MakeCallback_threw:
  assumes "current_source w = None"
      and "env cb target argv (w\<lparr>current_source := Some this\<rparr>) = (Threw e, w')"
    shows "u_MakeCallback K env this cb target argv w
     = (Inl (Exited 1),
        w'\<lparr>current_source := None,
          stderr := stderr w' @ Reported e # PrintStack K w' this 0\<rparr>,
        [(cb, target, argv)])"
proof -
  have "PrintStack K (ReportException e (w'\<lparr>current_source := None\<rparr>)) this 0 = PrintStack K w' this 0"
    by (rule PrintStack_frame) (simp_all add: ReportException_def)
  then show ?thesis
    using assms by (simp add: u_MakeCallback_def Let_def ReportException_def)
qed

lemma u_MakeCallback_halted:
  "current_source w = None \<Longrightarrow>
   env cb target argv (w\<lparr>current_source := Some this\<rparr>) = (Halted h, w') \<Longrightarrow>
   u_MakeCallback K env this cb target argv w = (Inl h, w', [(cb, target, argv)])"
  by (simp add: u_MakeCallback_def)

lemma u_MakeCallback_calls:
  "current_source w = None \<Longrightarrow>
   snd (snd (u_MakeCallback K env this cb target argv w)) = [(cb, target, argv)]"
  by (simp add: u_MakeCallback_def Let_def split: prod.splits completion.splits)

lemma u_MakeCallback_returned:
  assumes "u_MakeCallback K env this cb target argv w = (Inr r, w', cs)"
  shows "current_source w = None \<and> current_source w' = None \<and> cs = [(cb, target, argv)]
       \<and> (\<exists>v w1. env cb target argv (w\<lparr>current_source := Some this\<rparr>) = (Normal v, w1)
                  \<and> r = Some v \<and> w' = w1\<lparr>current_source := None\<rparr>)"
  using assms
  by (auto simp add: u_MakeCallback_def Let_def split: if_splits prod.splits completion.splits)

lemma cb_world_current [simp]: "current_source cb_world = None"
  by (simp add: cb_world_def blank_world_def)

lemma cb_world_srcs [simp]:
  "srcs cb_world 2 = \<lparr>handle = 20, refs = 1, trace = Some [frame_at 3], parent_source = None\<rparr>"
  by (simp add: cb_world_def)

lemma cb_world_callback [simp]: "Get cb_world 20 ''callback'' = Fun 10"
  by (simp add: cb_world_def Get_def blank_def)

lemma cb_world_src3 [simp]:
  "srcs cb_world 3 = \<lparr>handle = 30, refs = 1, trace = Some [frame_at 4], parent_source = Some 20\<rparr>"
  "Get cb_world 30 ''callback'' = Fun 12"
  by (simp_all add: cb_world_def Get_def blank_def)

lemma cb_world_global [simp]:
  "global cb_world = 6" "Get cb_world 6 ''process'' = Obj 7" "Get cb_world 7 ''_tickCallback'' = Fun 11"
  "tick_cb cb_world = None" "process cb_world = None"
  by (simp_all add: cb_world_def Get_def blank_def blank_world_def)

lemma log_source_fields [simp]:
  "current_source (log_source w) = current_source w"
  "tick_cb (log_source w) = tick_cb w"
  "process (log_source w) = process w"
  "global (log_source w) = global w"
  "srcs (log_source w) = srcs w"
  "wrapper_of (log_source w) = wrapper_of w"
  "stderr (log_source w) = stderr w"
  by (simp_all add: log_source_def)

lemma log_source_Get [simp]: "obj \<noteq> 5 \<Longrightarrow> Get (log_source w) obj name = Get w obj name"
  by (simp add: log_source_def Get_def)

lemma log_source_log [simp]:
  "elems (heap (log_source w) 5) =
     elems (heap w 5) @ [case current_source w of None \<Rightarrow> Undefined | Some s \<Rightarrow> Num (int s)]"
  by (simp add: log_source_def)

lemma cb_world_log [simp]: "elems (heap cb_world 5) = []"
  by (simp add: cb_world_def blank_world_def blank_def)

lemma cb_world_print: "PrintStack 10 cb_world 2 0 = [Separator, At ''f'' ''a.js'' 3 7]"
  by (subst PrintStack.simps) (simp add: frame_line_def frame_at_def)

lemma Get_static_update [simp]:
  "Get (w\<lparr>process := x\<rparr>) obj name = Get w obj name"
  "Get (w\<lparr>tick_cb := y\<rparr>) obj name = Get w obj name"
  "Get (w\<lparr>current_source := z\<rparr>) obj name = Get w obj name"
  by (simp_all add: Get_def)

lemma answer_10: "answer_host 10 recv argv w = (Normal (Num 42), log_source w)"
  by (simp add: answer_host_def)

lemma answer_other: "f \<noteq> 10 \<Longrightarrow> answer_host f recv argv w = (Normal Undefined, log_source w)"
  by (simp add: answer_host_def)

lemma answer_run:
  "u_MakeCallback 10 answer_host 2 10 20 [] cb_world
       = (Inr (Some (Num 42)),
          (log_source (cb_world\<lparr>current_source := Some 2\<rparr>))\<lparr>current_source := None\<rparr>,
          [(10, 20, [])])"
  by (simp add: u_MakeCallback_normal answer_host_def)

text \<open>
  C7. \<^verbatim>\<open>_MakeCallback\<close> entered while a source is current fails its assertion and calls
  nothing. Entered with no current source, it runs the callee in the state where the
  current source is this source; when the callee returns, its value is returned and the
  current source is reset; when the callee throws, the current source is reset as well,
  the error and the stack are written to \<^verbatim>\<open>stderr\<close> and the process exits with code 1.
\<close>

theorem u_MakeCallback_current_source:
  "(current_source w \<noteq> None \<longrightarrow>
      u_MakeCallback K env this cb target argv w = (Inl Aborted, w, []))
   \<and> (current_source w = None
        \<and> env cb target argv (w\<lparr>current_source := Some this\<rparr>) = (Normal v, w1) \<longrightarrow>
      u_MakeCallback K env this cb target argv w
        = (Inr (Some v), w1\<lparr>current_source := None\<rparr>, [(cb, target, argv)]))
   \<and> (current_source w = None
        \<and> env cb target argv (w\<lparr>current_source := Some this\<rparr>) = (Threw e, w2) \<longrightarrow>
      u_MakeCallback K env this cb target argv w
        = (Inl (Exited 1),
           w2\<lparr>current_source := None,
             stderr := stderr w2 @ Reported e # PrintStack K w2 this 0\<rparr>,
           [(cb, target, argv)])
      \<and> current_source (fst (snd (u_MakeCallback K env this cb target argv w))) = None)"
proof (intro conjI impI)
  assume "current_source w \<noteq> None"
  then show "u_MakeCallback K env this cb target argv w = (Inl Aborted, w, [])"
    by (rule u_MakeCallback_busy)
next
  assume "current_source w = None
        \<and> env cb target argv (w\<lparr>current_source := Some this\<rparr>) = (Normal v, w1)"
  then show "u_MakeCallback K env this cb target argv w
        = (Inr (Some v), w1\<lparr>current_source := None\<rparr>, [(cb, target, argv)])"
    by (simp add: u_MakeCallback_normal)
next
  assume a: "current_source w = None
        \<and> env cb target argv (w\<lparr>current_source := Some this\<rparr>) = (Threw e, w2)"
  then show t: "u_MakeCallback K env this cb target argv w
        = (Inl (Exited 1),
           w2\<lparr>current_source := None,
             stderr := stderr w2 @ Reported e # PrintStack K w2 this 0\<rparr>,
           [(cb, target, argv)])"
    by (simp add: u_MakeCallback_threw)
  show "current_source (fst (snd (u_MakeCallback K env this cb target argv w))) = None"
    unfolding t by simp
qed

theorem u_MakeCallback_current_source_witness:
  "u_MakeCallback 10 answer_host 3 12 30 [] (cb_world\<lparr>current_source := Some 2\<rparr>)
     = (Inl Aborted, cb_world\<lparr>current_source := Some 2\<rparr>, [])
   \<and> u_MakeCallback 10 answer_host 2 10 20 [] cb_world
       = (Inr (Some (Num 42)),
          (log_source (cb_world\<lparr>current_source := Some 2\<rparr>))\<lparr>current_source := None\<rparr>,
          [(10, 20, [])])
   \<and> elems (heap ((log_source (cb_world\<lparr>current_source := Some 2\<rparr>))\<lparr>current_source := None\<rparr>) 5)
       = [Num 2]
   \<and> fst (u_MakeCallback 10 throwing_host 2 10 20 [] cb_world) = Inl (Exited 1)
   \<and> current_source (fst (snd (u_MakeCallback 10 throwing_host 2 10 20 [] cb_world))) = None
   \<and> stderr (fst (snd (u_MakeCallback 10 throwing_host 2 10 20 [] cb_world)))
       = [Reported (Num 99), Separator, At ''f'' ''a.js'' 3 7]"
proof -
  have p: "PrintStack 10 (log_source (cb_world\<lparr>current_source := Some 2\<rparr>)) 2 0 = PrintStack 10 cb_world 2 0"
    by (rule PrintStack_frame) simp_all
  have s: "stderr cb_world = []" by (simp add: cb_world_def blank_world_def)
  show ?thesis
    using u_MakeCallback_current_source
            [where w = "cb_world\<lparr>current_source := Some 2\<rparr>" and K = 10 and env = answer_host
               and this = 3 and cb = 12 and target = 30 and argv = "[]"]
          u_MakeCallback_current_source
            [where w = cb_world and K = 10 and env = answer_host and this = 2 and cb = 10
               and target = 20 and argv = "[]" and v = "Num 42"
               and ?w1.0 = "log_source (cb_world\<lparr>current_source := Some 2\<rparr>)"]
          u_MakeCallback_current_source
            [where w = cb_world and K = 10 and env = throwing_host and this = 2 and cb = 10
               and target = 20 and argv = "[]" and e = "Num 99"
               and ?w2.0 = "log_source (cb_world\<lparr>current_source := Some 2\<rparr>)"]
    by (simp add: answer_host_def throwing_host_def p s cb_world_print)
qed

section \<open>MakeCallback and nested invocations\<close>

lemma MakeCallback_cached:
  assumes "Get w (handle (srcs w this)) ''callback'' = Fun cb"
      and "u_MakeCallback K env this cb (handle (srcs w this)) argv w = (Inr (Some ret), w1, cs)"
      and "tick_cb w1 = Some t" and "process w1 = Some p"
    shows "MakeCallback K env this argv w =
      (case u_MakeCallback K env this t p [] w1 of (r, w4, cs') \<Rightarrow> (r, w4, cs @ cs'))"
  using assms by (simp add: MakeCallback_def)

lemma MakeCallback_first_use:
  assumes "Get w (handle (srcs w this)) ''callback'' = Fun cb"
      and "u_MakeCallback K env this cb (handle (srcs w this)) argv w = (Inr (Some ret), w1, cs)"
      and "tick_cb w1 = None \<or> process w1 = None"
      and "ToObject (Get w1 (global w1) ''process'') = Some p"
      and "Get w1 p ''_tickCallback'' = Fun t"
    shows "MakeCallback K env this argv w =
      (case u_MakeCallback K env this t p [] (w1\<lparr>process := Some p, tick_cb := Some t\<rparr>) of
         (r, w4, cs') \<Rightarrow> (r, w4, cs @ cs'))"
  using assms
  by (cases "Get w1 (global w1) ''process''") (simp_all add: MakeCallback_def Let_def)

lemma MakeCallback_no_tick:
  assumes "Get w (handle (srcs w this)) ''callback'' = Fun cb"
      and "u_MakeCallback K env this cb (handle (srcs w this)) argv w = (Inr (Some ret), w1, cs)"
      and "tick_cb w1 = None \<or> process w1 = None"
      and "ToObject (Get w1 (global w1) ''process'') = Some p"
      and "\<forall>f. Get w1 p ''_tickCallback'' \<noteq> Fun f"
    shows "MakeCallback K env this argv w =
      (Inl Aborted,
       w1\<lparr>process := Some p,
          stderr := stderr w1 @ [Message ''process._tickCallback undefined. Bad.'']\<rparr>,
       cs)"
proof -
  have callback: "MakeCallback K env this argv w =
      (case Get w1 (global w1) ''process'' of
         Undefined \<Rightarrow> (Inl Crashed, w1, cs)
       | Num n \<Rightarrow>
           (Inl Aborted,
            w1\<lparr>stderr := stderr w1 @ [Message ''process._tickCallback undefined. Bad.'']\<rparr>,
            cs)
       | process_v \<Rightarrow>
           (let w2 = w1\<lparr>process := ToObject process_v\<rparr> in
            case Get w2 (the (process w2)) ''_tickCallback'' of
              Fun t \<Rightarrow>
                (let w3 = w2\<lparr>tick_cb := Some t\<rparr> in
                 case u_MakeCallback K env this (the (tick_cb w3)) (the (process w3)) [] w3 of
                   (r, w4, cs') \<Rightarrow> (r, w4, cs @ cs'))
            | _ \<Rightarrow>
                (Inl Aborted,
                 w2\<lparr>stderr := stderr w2 @ [Message ''process._tickCallback undefined. Bad.'']\<rparr>,
                 cs)))"
    using assms(1,2,3) by (simp add: MakeCallback_def)
  obtain pv where pv: "Get w1 (global w1) ''process'' = pv" by simp
  have obj: "ToObject pv = Some p" using assms(4) pv by simp
  have tick: "MakeCallback K env this argv w =
      (case Get w1 p ''_tickCallback'' of
         Fun t \<Rightarrow>
           (let w3 = w1\<lparr>process := Some p, tick_cb := Some t\<rparr> in
            case u_MakeCallback K env this (the (tick_cb w3)) (the (process w3)) [] w3 of
              (r, w4, cs') \<Rightarrow> (r, w4, cs @ cs'))
       | _ \<Rightarrow>
           (Inl Aborted,
            w1\<lparr>process := Some p,
               stderr := stderr w1 @ [Message ''process._tickCallback undefined. Bad.'']\<rparr>,
            cs))"
    unfolding callback pv using obj by (cases pv) (simp_all add: Let_def cong: Value.case_cong)
  show ?thesis
    unfolding tick using assms(5) by (cases "Get w1 p ''_tickCallback''") simp_all
qed

lemma MakeCallback_returned:
  assumes "Get w (handle (srcs w this)) ''callback'' = Fun cb"
      and "MakeCallback K env this argv w = (Inr r, w', cs)"
    shows "\<exists>ret w1 cs1 t p w2 cs2.
             u_MakeCallback K env this cb (handle (srcs w this)) argv w = (Inr (Some ret), w1, cs1)
           \<and> (w2 = w1 \<or> w2 = w1\<lparr>process := Some p, tick_cb := Some t\<rparr>)
           \<and> tick_cb w2 = Some t \<and> process w2 = Some p
           \<and> u_MakeCallback K env this t p [] w2 = (Inr r, w', cs2)
           \<and> cs = cs1 @ cs2"
proof -
  obtain x w1 cs1 where first: "u_MakeCallback K env this cb (handle (srcs w this)) argv w = (x, w1, cs1)"
    by (cases "u_MakeCallback K env this cb (handle (srcs w this)) argv w") auto
  have "\<exists>ret. x = Inr (Some ret)"
  proof (cases x)
    case (Inl h)
    with assms first show ?thesis by (simp add: MakeCallback_def)
  next
    case (Inr y)
    with first have "\<exists>v. y = Some v" using u_MakeCallback_returned by blast
    with Inr show ?thesis by simp
  qed
  then obtain ret where x: "x = Inr (Some ret)" by blast
  note first' = first[unfolded x]
  show ?thesis
  proof (cases "tick_cb w1 = None \<or> process w1 = None")
    case False
    then obtain t p where tp: "tick_cb w1 = Some t" "process w1 = Some p" by auto
    obtain r2 w4 cs2 where second: "u_MakeCallback K env this t p [] w1 = (r2, w4, cs2)"
      by (cases "u_MakeCallback K env this t p [] w1") auto
    from MakeCallback_cached[OF assms(1) first' tp] second assms(2)
    have "r2 = Inr r" "w4 = w'" "cs = cs1 @ cs2" by simp_all
    with first' tp second show ?thesis by blast
  next
    case True
    show ?thesis
    proof (cases "ToObject (Get w1 (global w1) ''process'')")
      case None
      then have "Get w1 (global w1) ''process'' = Undefined \<or> (\<exists>n. Get w1 (global w1) ''process'' = Num n)"
        by (cases "Get w1 (global w1) ''process''") simp_all
      with assms first' True show ?thesis by (auto simp add: MakeCallback_def)
    next
      case (Some p)
      show ?thesis
      proof (cases "\<exists>t. Get w1 p ''_tickCallback'' = Fun t")
        case False
        then have "\<forall>f. Get w1 p ''_tickCallback'' \<noteq> Fun f" by simp
        from MakeCallback_no_tick[OF assms(1) first' True Some this] assms(2)
        show ?thesis by simp
      next
        case t: True
        then obtain t where t: "Get w1 p ''_tickCallback'' = Fun t" by blast
        let ?w2 = "w1\<lparr>process := Some p, tick_cb := Some t\<rparr>"
        obtain r2 w4 cs2 where second: "u_MakeCallback K env this t p [] ?w2 = (r2, w4, cs2)"
          by (cases "u_MakeCallback K env this t p [] ?w2") auto
        from MakeCallback_first_use[OF assms(1) first' True Some t] second assms(2)
        have "r2 = Inr r" "w4 = w'" "cs = cs1 @ cs2" by simp_all
        moreover have "tick_cb ?w2 = Some t" "process ?w2 = Some p" by simp_all
        ultimately show ?thesis using first' second by blast
      qed
    qed
  qed
qed

lemma answer_MakeCallback:
  "MakeCallback 10 answer_host 2 [] cb_world
     = (Inr (Some Undefined), drained_world, [(10, 20, []), (11, 7, [])])"
proof -
  have 1: "Get cb_world (handle (srcs cb_world 2)) ''callback'' = Fun 10" by simp
  have 2: "u_MakeCallback 10 answer_host 2 10 (handle (srcs cb_world 2)) [] cb_world
       = (Inr (Some (Num 42)),
          (log_source (cb_world\<lparr>current_source := Some 2\<rparr>))\<lparr>current_source := None\<rparr>,
          [(10, 20, [])])"
    using answer_run by simp
  show ?thesis
    by (subst MakeCallback_first_use[OF 1 2, where p = 7 and t = 11])
       (simp_all add: u_MakeCallback_normal[where v = Undefined] answer_other drained_world_def)
qed

lemma MakeCallback_drain_call:
  assumes "current_source w1 = None"
  shows "snd (snd (case u_MakeCallback K env this t p [] w1 of (r, w4, cs') \<Rightarrow> (r, w4, c # cs')))
         = [c, (t, p, [])]"
  using u_MakeCallback_calls[OF assms, of K env this t p "[]"]
  by (cases "u_MakeCallback K env this t p [] w1") simp

lemma cached_world_facts [simp]:
  "current_source cached_world = None"
  "srcs cached_world = srcs cb_world"
  "Get cached_world obj name = Get cb_world obj name"
  "tick_cb cached_world = Some 13" "process cached_world = Some 8"
  by (simp_all add: cached_world_def Get_def)

lemma no_tick_world_facts [simp]:
  "current_source no_tick_world = None"
  "srcs no_tick_world = srcs cb_world"
  "global no_tick_world = 6"
  "tick_cb no_tick_world = None"
  "Get no_tick_world 20 ''callback'' = Fun 10"
  "Get no_tick_world 6 ''process'' = Obj 7"
  "Get no_tick_world 7 name = Undefined"
  by (simp_all add: no_tick_world_def Get_def cb_world_def blank_def blank_world_def)

lemma nested_public:
  "MakeCallback 10 nested_public_host 2 [] cb_world
     = (Inl Aborted, log_source (cb_world\<lparr>current_source := Some 2\<rparr>), [(10, 20, [])])"
proof -
  have "nested_public_host 10 20 [] (cb_world\<lparr>current_source := Some 2\<rparr>)
      = (Halted Aborted, log_source (cb_world\<lparr>current_source := Some 2\<rparr>))"
    by (simp add: nested_public_host_def MakeCallback_def u_MakeCallback_busy)
  then show ?thesis
    by (simp add: MakeCallback_def u_MakeCallback_halted)
qed

text \<open>
  C2 as stated fails at nesting depth two. The callback of source 2 invokes the
  callback of source 3 synchronously: the inner \<^verbatim>\<open>_MakeCallback\<close> finds source 2 current,
  fails its assertion and the process stops. The log holds the one observation made on
  the way in; the inner callback never runs. The same happens when the inner invocation
  goes through \<^verbatim>\<open>MakeCallback\<close>.
\<close>

theorem nested_invocation_counterexample:
  "u_MakeCallback 10 nested_host 2 10 20 [] cb_world
     = (Inl Aborted, log_source (cb_world\<lparr>current_source := Some 2\<rparr>), [(10, 20, [])])
   \<and> elems (heap (log_source (cb_world\<lparr>current_source := Some 2\<rparr>)) 5) = [Num 2]
   \<and> current_source (log_source (cb_world\<lparr>current_source := Some 2\<rparr>)) = Some 2
   \<and> MakeCallback 10 nested_public_host 2 [] cb_world
       = (Inl Aborted, log_source (cb_world\<lparr>current_source := Some 2\<rparr>), [(10, 20, [])])"
proof -
  have "nested_host 10 20 [] (cb_world\<lparr>current_source := Some 2\<rparr>)
      = (Halted Aborted, log_source (cb_world\<lparr>current_source := Some 2\<rparr>))"
    by (simp add: nested_host_def u_MakeCallback_busy)
  then show ?thesis
    by (simp add: u_MakeCallback_halted nested_public)
qed

text \<open>
  C2, amended. Every \<^verbatim>\<open>_MakeCallback\<close> call that returns was entered with no current
  source, ran its callee in the state where the current source is this source, and
  leaves the current source as it was at entry, that is, empty. (Entered while a source
  is current it does not return: see C7.)
\<close>

theorem u_MakeCallback_single_level:
  assumes "u_MakeCallback K env this cb target argv w = (Inr r, w', cs)"
  shows "current_source w = None \<and> current_source w' = current_source w
       \<and> (\<exists>v w1. env cb target argv (w\<lparr>current_source := Some this\<rparr>) = (Normal v, w1)
                  \<and> r = Some v \<and> w' = w1\<lparr>current_source := None\<rparr>)"
  using u_MakeCallback_returned[OF assms] by simp

theorem u_MakeCallback_single_level_witness:
  "u_MakeCallback 10 answer_host 2 10 20 [] cb_world
       = (Inr (Some (Num 42)),
          (log_source (cb_world\<lparr>current_source := Some 2\<rparr>))\<lparr>current_source := None\<rparr>,
          [(10, 20, [])])
   \<and> current_source cb_world = None
   \<and> current_source ((log_source (cb_world\<lparr>current_source := Some 2\<rparr>))\<lparr>current_source := None\<rparr>)
       = current_source cb_world
   \<and> elems (heap ((log_source (cb_world\<lparr>current_source := Some 2\<rparr>))\<lparr>current_source := None\<rparr>) 5)
       = [Num 2]"
  using u_MakeCallback_single_level [OF answer_run] answer_run by simp

text \<open>
  C1 as stated fails. The callback of source 2 is callable and returns 42, the drain
  returns \<open>undefined\<close>, and \<^verbatim>\<open>MakeCallback\<close> returns \<open>undefined\<close>.
\<close>

theorem MakeCallback_result_counterexample:
  "Get cb_world (handle (srcs cb_world 2)) ''callback'' = Fun 10
   \<and> fst (answer_host 10 20 [] (cb_world\<lparr>current_source := Some 2\<rparr>)) = Normal (Num 42)
   \<and> fst (MakeCallback 10 answer_host 2 [] cb_world) = Inr (Some Undefined)"
  by (simp add: answer_MakeCallback answer_10)

text \<open>
  C1, amended. Whenever \<^verbatim>\<open>MakeCallback\<close>, on a source whose \<^verbatim>\<open>callback\<close> is callable,
  returns, the callback \<open>cb\<close> returned some \<open>v\<close>, then the drain callable \<open>t\<close> was invoked
  on \<^verbatim>\<open>process\<close> with no arguments and returned some \<open>u\<close>, and the value returned to the
  caller is \<open>u\<close>, the drain's.
\<close>

theorem MakeCallback_returns_drain_value:
  assumes "Get w (handle (srcs w this)) ''callback'' = Fun cb"
      and "MakeCallback K env this argv w = (Inr r, w', cs)"
    shows "\<exists>v w1 t p w2 u w3.
        env cb (handle (srcs w this)) argv (w\<lparr>current_source := Some this\<rparr>) = (Normal v, w1)
      \<and> (w2 = w1\<lparr>current_source := None\<rparr>
           \<or> w2 = w1\<lparr>current_source := None, process := Some p, tick_cb := Some t\<rparr>)
      \<and> tick_cb w2 = Some t \<and> process w2 = Some p
      \<and> env t p [] (w2\<lparr>current_source := Some this\<rparr>) = (Normal u, w3)
      \<and> r = Some u \<and> w' = w3\<lparr>current_source := None\<rparr>
      \<and> cs = [(cb, handle (srcs w this), argv), (t, p, [])]"
proof -
  from MakeCallback_returned[OF assms] obtain ret w1 cs1 t p w2 cs2 where
    first: "u_MakeCallback K env this cb (handle (srcs w this)) argv w = (Inr (Some ret), w1, cs1)"
    and w2: "w2 = w1 \<or> w2 = w1\<lparr>process := Some p, tick_cb := Some t\<rparr>"
    and tp: "tick_cb w2 = Some t" "process w2 = Some p"
    and second: "u_MakeCallback K env this t p [] w2 = (Inr r, w', cs2)"
    and cs: "cs = cs1 @ cs2"
    by blast
  from u_MakeCallback_returned[OF first] obtain w0 where
    a: "env cb (handle (srcs w this)) argv (w\<lparr>current_source := Some this\<rparr>) = (Normal ret, w0)"
       "w1 = w0\<lparr>current_source := None\<rparr>" "cs1 = [(cb, handle (srcs w this), argv)]"
    by auto
  from u_MakeCallback_returned[OF second] obtain u w3 where
    b: "env t p [] (w2\<lparr>current_source := Some this\<rparr>) = (Normal u, w3)"
       "r = Some u" "w' = w3\<lparr>current_source := None\<rparr>" "cs2 = [(t, p, [])]"
    by auto
  from w2 a(2) have "w2 = w0\<lparr>current_source := None\<rparr>
      \<or> w2 = w0\<lparr>current_source := None, process := Some p, tick_cb := Some t\<rparr>"
    by auto
  with a b tp cs show ?thesis by (intro exI[of _ ret] exI[of _ w0] exI[of _ t] exI[of _ p] exI[of _ w2] exI[of _ u] exI[of _ w3]) simp
qed

theorem MakeCallback_returns_drain_value_witness:
  "Get cb_world (handle (srcs cb_world 2)) ''callback'' = Fun 10
   \<and> MakeCallback 10 answer_host 2 [] cb_world
       = (Inr (Some Undefined), drained_world, [(10, 20, []), (11, 7, [])])
   \<and> (\<exists>v w1 t p w2 u w3.
        answer_host 10 (handle (srcs cb_world 2)) [] (cb_world\<lparr>current_source := Some 2\<rparr>) = (Normal v, w1)
      \<and> (w2 = w1\<lparr>current_source := None\<rparr>
           \<or> w2 = w1\<lparr>current_source := None, process := Some p, tick_cb := Some t\<rparr>)
      \<and> tick_cb w2 = Some t \<and> process w2 = Some p
      \<and> answer_host t p [] (w2\<lparr>current_source := Some 2\<rparr>) = (Normal u, w3)
      \<and> Some Undefined = Some u \<and> drained_world = w3\<lparr>current_source := None\<rparr>
      \<and> ([(10, 20, []), (11, 7, [])] :: call list) = [(10, handle (srcs cb_world 2), []), (t, p, [])])"
proof -
  have 1: "Get cb_world (handle (srcs cb_world 2)) ''callback'' = Fun 10" by simp
  show ?thesis
    by (rule conjI [OF 1 conjI [OF answer_MakeCallback
          MakeCallback_returns_drain_value [OF 1 answer_MakeCallback]]])
qed

text \<open>
  C6. After the callback of the source has returned (state \<open>w0\<close>), \<^verbatim>\<open>MakeCallback\<close> invokes
  the drain callable through \<^verbatim>\<open>_MakeCallback\<close> exactly once, with no arguments, before it
  returns: the calls it makes are the callback's and the drain's. The drain is the cached
  pair of statics when both are set; otherwise it is looked up as
  \<^verbatim>\<open>process._tickCallback\<close> off the global object and stored in the statics before the
  call; and when that property is not a function the process aborts, having made the
  callback's call only.
\<close>

theorem MakeCallback_drains_once:
  assumes "current_source w = None"
      and "Get w (handle (srcs w this)) ''callback'' = Fun cb"
      and "env cb (handle (srcs w this)) argv (w\<lparr>current_source := Some this\<rparr>) = (Normal v, w0)"
    shows
     "(tick_cb w0 = Some t \<and> process w0 = Some p \<longrightarrow>
         MakeCallback K env this argv w =
           (case u_MakeCallback K env this t p [] (w0\<lparr>current_source := None\<rparr>) of
              (r, w4, cs') \<Rightarrow> (r, w4, (cb, handle (srcs w this), argv) # cs'))
         \<and> snd (snd (MakeCallback K env this argv w)) = [(cb, handle (srcs w this), argv), (t, p, [])])
    \<and> ((tick_cb w0 = None \<or> process w0 = None)
         \<and> ToObject (Get w0 (global w0) ''process'') = Some p
         \<and> Get w0 p ''_tickCallback'' = Fun t \<longrightarrow>
         MakeCallback K env this argv w =
           (case u_MakeCallback K env this t p []
                   (w0\<lparr>current_source := None, process := Some p, tick_cb := Some t\<rparr>) of
              (r, w4, cs') \<Rightarrow> (r, w4, (cb, handle (srcs w this), argv) # cs'))
         \<and> snd (snd (MakeCallback K env this argv w)) = [(cb, handle (srcs w this), argv), (t, p, [])])
    \<and> ((tick_cb w0 = None \<or> process w0 = None)
         \<and> ToObject (Get w0 (global w0) ''process'') = Some p
         \<and> (\<forall>f. Get w0 p ''_tickCallback'' \<noteq> Fun f) \<longrightarrow>
         MakeCallback K env this argv w =
           (Inl Aborted,
            w0\<lparr>current_source := None, process := Some p,
               stderr := stderr w0 @ [Message ''process._tickCallback undefined. Bad.'']\<rparr>,
            [(cb, handle (srcs w this), argv)]))"
proof -
  let ?w1 = "w0\<lparr>current_source := None\<rparr>"
  let ?c = "(cb, handle (srcs w this), argv)"
  have first: "u_MakeCallback K env this cb (handle (srcs w this)) argv w = (Inr (Some v), ?w1, [?c])"
    using assms(1,3) by (rule u_MakeCallback_normal)
  have A: "MakeCallback K env this argv w =
           (case u_MakeCallback K env this t p [] ?w1 of (r, w4, cs') \<Rightarrow> (r, w4, ?c # cs'))"
    if "tick_cb w0 = Some t \<and> process w0 = Some p"
    using MakeCallback_cached[OF assms(2) first, of t p] that by simp
  have B: "MakeCallback K env this argv w =
           (case u_MakeCallback K env this t p [] (?w1\<lparr>process := Some p, tick_cb := Some t\<rparr>) of
              (r, w4, cs') \<Rightarrow> (r, w4, ?c # cs'))"
    if "(tick_cb w0 = None \<or> process w0 = None)
         \<and> ToObject (Get w0 (global w0) ''process'') = Some p
         \<and> Get w0 p ''_tickCallback'' = Fun t"
    using MakeCallback_first_use[OF assms(2) first, of p t] that by simp
  have C: "MakeCallback K env this argv w =
           (Inl Aborted,
            ?w1\<lparr>process := Some p,
               stderr := stderr ?w1 @ [Message ''process._tickCallback undefined. Bad.'']\<rparr>,
            [?c])"
    if "(tick_cb w0 = None \<or> process w0 = None)
         \<and> ToObject (Get w0 (global w0) ''process'') = Some p
         \<and> (\<forall>f. Get w0 p ''_tickCallback'' \<noteq> Fun f)"
    using MakeCallback_no_tick[OF assms(2) first, of p] that by simp
  show ?thesis
  proof (intro conjI impI)
    assume a: "tick_cb w0 = Some t \<and> process w0 = Some p"
    show "MakeCallback K env this argv w =
           (case u_MakeCallback K env this t p [] ?w1 of (r, w4, cs') \<Rightarrow> (r, w4, ?c # cs'))"
      using A[OF a] .
    show "snd (snd (MakeCallback K env this argv w)) = [?c, (t, p, [])]"
      unfolding A[OF a] by (rule MakeCallback_drain_call) simp
  next
    assume b: "(tick_cb w0 = None \<or> process w0 = None)
         \<and> ToObject (Get w0 (global w0) ''process'') = Some p
         \<and> Get w0 p ''_tickCallback'' = Fun t"
    show "MakeCallback K env this argv w =
           (case u_MakeCallback K env this t p []
                   (w0\<lparr>current_source := None, process := Some p, tick_cb := Some t\<rparr>) of
              (r, w4, cs') \<Rightarrow> (r, w4, ?c # cs'))"
      using B[OF b] by simp
    show "snd (snd (MakeCallback K env this argv w)) = [?c, (t, p, [])]"
      unfolding B[OF b] by (rule MakeCallback_drain_call) simp
  next
    assume c: "(tick_cb w0 = None \<or> process w0 = None)
         \<and> ToObject (Get w0 (global w0) ''process'') = Some p
         \<and> (\<forall>f. Get w0 p ''_tickCallback'' \<noteq> Fun f)"
    show "MakeCallback K env this argv w =
           (Inl Aborted,
            w0\<lparr>current_source := None, process := Some p,
               stderr := stderr w0 @ [Message ''process._tickCallback undefined. Bad.'']\<rparr>,
            [?c])"
      using C[OF c] by simp
  qed
qed

text \<open>First use, cached statics (which win over the heap), and a missing
  \<^verbatim>\<open>_tickCallback\<close>.\<close>

theorem MakeCallback_drains_once_witness:
  "snd (snd (MakeCallback 10 answer_host 2 [] cb_world)) = [(10, 20, []), (11, 7, [])]
   \<and> tick_cb (fst (snd (MakeCallback 10 answer_host 2 [] cb_world))) = Some 11
   \<and> process (fst (snd (MakeCallback 10 answer_host 2 [] cb_world))) = Some 7
   \<and> elems (heap (fst (snd (MakeCallback 10 answer_host 2 [] cb_world))) 5) = [Num 2, Num 2]
   \<and> snd (snd (MakeCallback 10 answer_host 2 [] cached_world)) = [(10, 20, []), (13, 8, [])]
   \<and> fst (MakeCallback 10 answer_host 2 [] no_tick_world) = Inl Aborted
   \<and> snd (snd (MakeCallback 10 answer_host 2 [] no_tick_world)) = [(10, 20, [])]"
proof -
  let ?b = "log_source (cb_world\<lparr>current_source := Some 2\<rparr>)"
  have b1: "current_source cb_world = None" by simp
  have b2: "Get cb_world (handle (srcs cb_world 2)) ''callback'' = Fun 10" by simp
  have b3: "answer_host 10 (handle (srcs cb_world 2)) [] (cb_world\<lparr>current_source := Some 2\<rparr>)
      = (Normal (Num 42), ?b)" by (rule answer_10)
  have b4: "(tick_cb ?b = None \<or> process ?b = None)
      \<and> ToObject (Get ?b (global ?b) ''process'') = Some 7 \<and> Get ?b 7 ''_tickCallback'' = Fun 11"
    by simp
  from MakeCallback_drains_once [where env = answer_host and w = cb_world and this = 2 and cb = 10
      and argv = "[]" and t = 11 and p = 7 and K = 10, OF b1 b2 b3] b4
  have b: "snd (snd (MakeCallback 10 answer_host 2 [] cb_world))
      = [(10, handle (srcs cb_world 2), []), (11, 7, [])]"
    by blast
  let ?a = "log_source (cached_world\<lparr>current_source := Some 2\<rparr>)"
  have a1: "current_source cached_world = None" by simp
  have a2: "Get cached_world (handle (srcs cached_world 2)) ''callback'' = Fun 10" by simp
  have a3: "answer_host 10 (handle (srcs cached_world 2)) [] (cached_world\<lparr>current_source := Some 2\<rparr>)
      = (Normal (Num 42), ?a)" by (rule answer_10)
  have a4: "tick_cb ?a = Some 13 \<and> process ?a = Some 8" by simp
  from MakeCallback_drains_once [where env = answer_host and w = cached_world and this = 2 and cb = 10
      and argv = "[]" and t = 13 and p = 8 and K = 10, OF a1 a2 a3] a4
  have a: "snd (snd (MakeCallback 10 answer_host 2 [] cached_world))
      = [(10, handle (srcs cached_world 2), []), (13, 8, [])]"
    by blast
  let ?c = "log_source (no_tick_world\<lparr>current_source := Some 2\<rparr>)"
  have c1: "current_source no_tick_world = None" by simp
  have c2: "Get no_tick_world (handle (srcs no_tick_world 2)) ''callback'' = Fun 10" by simp
  have c3: "answer_host 10 (handle (srcs no_tick_world 2)) [] (no_tick_world\<lparr>current_source := Some 2\<rparr>)
      = (Normal (Num 42), ?c)" by (rule answer_10)
  have c4: "(tick_cb ?c = None \<or> process ?c = None)
      \<and> ToObject (Get ?c (global ?c) ''process'') = Some 7
      \<and> (\<forall>f. Get ?c 7 ''_tickCallback'' \<noteq> Fun f)"
    by simp
  from MakeCallback_drains_once [where env = answer_host and w = no_tick_world and this = 2 and cb = 10
      and argv = "[]" and p = 7 and K = 10, OF c1 c2 c3] c4
  have "MakeCallback 10 answer_host 2 [] no_tick_world =
      (Inl Aborted,
       ?c\<lparr>current_source := None, process := Some 7,
          stderr := stderr ?c @ [Message ''process._tickCallback undefined. Bad.'']\<rparr>,
       [(10, handle (srcs no_tick_world 2), [])])"
    by blast
  then have c: "fst (MakeCallback 10 answer_host 2 [] no_tick_world) = Inl Aborted
         \<and> snd (snd (MakeCallback 10 answer_host 2 [] no_tick_world)) = [(10, 20, [])]"
    by simp
  have d: "tick_cb drained_world = Some 11" "process drained_world = Some 7"
    "elems (heap drained_world 5) = [Num 2, Num 2]"
    by (simp_all add: drained_world_def)
  show ?thesis using a b c d by (simp add: answer_MakeCallback)
qed

end
